theory Spec2Isabelle
  imports Main
begin

section \<open>Python values used by the scraper\<close>

text \<open>
  A Python \<open>str\<close> is a sequence of Unicode code points, so it is modelled as a list
  of naturals. The currency symbol of the source is the code point 8364 (the euro
  sign), which has no place in an 8-bit \<open>char\<close>. \<open>ascii\<close> embeds an Isabelle string
  literal, so that \<open>ascii ''Club''\<close> is the Python literal \<open>"Club"\<close>.
\<close>

type_synonym codepoint = nat
type_synonym pystr = "codepoint list"

definition ascii :: "string \<Rightarrow> pystr" where
  "ascii s = map of_char s"

definition euro :: codepoint where
  "euro = 8364"

text \<open>The exceptions the modelled code can raise.\<close>

datatype pyerror = ValueError | OverflowError

subsection \<open>Character classes\<close>

text \<open>
  \<open>str.isspace\<close>, which decides what \<open>str.strip()\<close> removes and what the regular
  expression class \<open>\s\<close> matches.
\<close>

definition is_space :: "codepoint \<Rightarrow> bool" where
  "is_space c \<longleftrightarrow>
     (9 \<le> c \<and> c \<le> 13) \<or> (28 \<le> c \<and> c \<le> 32) \<or> c = 133 \<or> c = 160 \<or> c = 5760 \<or>
     (8192 \<le> c \<and> c \<le> 8202) \<or> c = 8232 \<or> c = 8233 \<or> c = 8239 \<or> c = 8287 \<or>
     c = 12288"

text \<open>
  The decimal digits of Unicode (category Nd, Unicode 14) come in runs of ten
  consecutive code points, zero first. The regular expression class \<open>\d\<close> on a
  \<open>str\<close> pattern matches exactly these, and \<open>float()\<close> and \<open>int()\<close> read them with
  their digit value.
\<close>

definition decimal_zeros :: "codepoint list" where
  "decimal_zeros =
    [48, 1632, 1776, 1984, 2406, 2534, 2662, 2790, 2918, 3046, 3174, 3302, 3430, 3558,
     3664, 3792, 3872, 4160, 4240, 6112, 6160, 6470, 6608, 6784, 6800, 6992, 7088, 7232,
     7248, 42528, 43216, 43264, 43472, 43504, 43600, 44016, 65296, 66720, 68912, 69734,
     69872, 69942, 70096, 70384, 70736, 70864, 71248, 71360, 71472, 71904, 72016, 72784,
     73040, 73120, 92768, 92864, 93008, 120782, 120792, 120802, 120812, 120822, 123200,
     123632, 125264, 130032]"

definition to_decimal :: "codepoint \<Rightarrow> nat option" where
  "to_decimal c =
     map_option (\<lambda>z. c - z) (find (\<lambda>z. z \<le> c \<and> c < z + 10) decimal_zeros)"

definition is_digit :: "codepoint \<Rightarrow> bool" where
  "is_digit c \<longleftrightarrow> to_decimal c \<noteq> None"

definition is_ascii_digit :: "codepoint \<Rightarrow> bool" where
  "is_ascii_digit c \<longleftrightarrow> 48 \<le> c \<and> c \<le> 57"

definition ascii_lower :: "codepoint \<Rightarrow> codepoint" where
  "ascii_lower c = (if 65 \<le> c \<and> c \<le> 90 then c + 32 else c)"

subsection \<open>String operations\<close>

fun starts_with :: "pystr \<Rightarrow> pystr \<Rightarrow> bool" where
  "starts_with [] s = True"
| "starts_with (p # ps) [] = False"
| "starts_with (p # ps) (c # cs) = (p = c \<and> starts_with ps cs)"

text \<open>Python's \<open>sub in s\<close> on strings.\<close>

fun str_in :: "pystr \<Rightarrow> pystr \<Rightarrow> bool" where
  "str_in sub [] = (sub = [])"
| "str_in sub (c # cs) = (starts_with sub (c # cs) \<or> str_in sub cs)"

text \<open>\<open>s.replace(c, '')\<close> for a one-character \<open>c\<close>: every occurrence is removed.\<close>

definition remove_char :: "codepoint \<Rightarrow> pystr \<Rightarrow> pystr" where
  "remove_char c s = filter (\<lambda>x. x \<noteq> c) s"

definition strip_with :: "(codepoint \<Rightarrow> bool) \<Rightarrow> pystr \<Rightarrow> pystr" where
  "strip_with ws s = rev (dropWhile ws (rev (dropWhile ws s)))"

definition strip :: "pystr \<Rightarrow> pystr" where
  "strip s = strip_with is_space s"

section \<open>Floating-point numbers\<close>

text \<open>
  A Python \<open>float\<close> is an IEEE 754 binary64 number. A finite non-zero one is
  \<open>Finite m e\<close>, the number \<open>m * 2 ^ e\<close>, in the format's own normal form: either
  \<open>2 ^ 52 \<le> \<bar>m\<bar> < 2 ^ 53\<close> and \<open>- 1074 \<le> e \<le> 971\<close>, or a subnormal with
  \<open>\<bar>m\<bar> < 2 ^ 52\<close> and \<open>e = - 1074\<close>. Conversions and arithmetic round to the
  nearest representable number, ties to the even significand.
\<close>

datatype pyfloat = Finite int int | PosZero | NegZero | PosInf | NegInf | NaN

fun bit_length :: "nat \<Rightarrow> nat" where
  "bit_length n = (if n = 0 then 0 else Suc (bit_length (n div 2)))"

declare bit_length.simps [simp del]

text \<open>The integer \<open>k\<close> with \<open>2 ^ k \<le> n / d < 2 ^ (k + 1)\<close>, for positive \<open>n\<close> and \<open>d\<close>.\<close>

definition floor_log2 :: "int \<Rightarrow> int \<Rightarrow> int" where
  "floor_log2 n d =
     (let k = int (bit_length (nat n)) - int (bit_length (nat d)) in
      if d * 2 ^ nat k \<le> n * 2 ^ nat (- k) then k else k - 1)"

text \<open>The integer nearest to \<open>n / d\<close>, the even one of two equally near.\<close>

definition round_half_even :: "int \<Rightarrow> int \<Rightarrow> int" where
  "round_half_even n d =
     (let q = n div d; r = n mod d in
      if 2 * r < d then q
      else if d < 2 * r then q + 1
      else if even q then q else q + 1)"

text \<open>
  The binary64 number nearest to \<open>n / d\<close> for positive \<open>n\<close> and \<open>d\<close>, with the sign
  \<open>neg\<close>. A magnitude of at least \<open>2 ^ 1024 - 2 ^ 970\<close>, half a unit in the last place
  above the largest finite number, rounds to infinity; a magnitude that rounds to
  zero keeps its sign.
\<close>

definition round_fraction :: "bool \<Rightarrow> int \<Rightarrow> int \<Rightarrow> pyfloat" where
  "round_fraction neg n d =
     (if (2 ^ 1024 - 2 ^ 970) * d \<le> n then (if neg then NegInf else PosInf)
      else
        let e = max (floor_log2 n d - 52) (- 1074);
            m = round_half_even (n * 2 ^ nat (- e)) (d * 2 ^ nat e)
        in if m = 0 then (if neg then NegZero else PosZero)
           else if m = 2 ^ 53 then Finite (if neg then - (2 ^ 52) else 2 ^ 52) (e + 1)
           else Finite (if neg then - m else m) e)"

text \<open>The value of the decimal numeral \<open>(-) digits * 10 ^ exp10\<close> as a float.\<close>

definition float_of_decimal :: "bool \<Rightarrow> nat \<Rightarrow> int \<Rightarrow> pyfloat" where
  "float_of_decimal neg digits exp10 =
     (if digits = 0 then (if neg then NegZero else PosZero)
      else if 0 \<le> exp10 then round_fraction neg (int digits * 10 ^ nat exp10) 1
      else round_fraction neg (int digits) (10 ^ nat (- exp10)))"

text \<open>
  An \<open>int\<close> operand of float arithmetic is converted first. (Beyond the range of
  binary64 Python raises instead of rounding to infinity; the constants of the
  source, 1000000 and 1000, are exact.)
\<close>

definition float_of_int :: "int \<Rightarrow> pyfloat" where
  "float_of_int i = (if i = 0 then PosZero else round_fraction (i < 0) \<bar>i\<bar> 1)"

definition is_nan :: "pyfloat \<Rightarrow> bool" where
  "is_nan x \<longleftrightarrow> x = NaN"

definition is_inf :: "pyfloat \<Rightarrow> bool" where
  "is_inf x \<longleftrightarrow> x = PosInf \<or> x = NegInf"

definition is_zero :: "pyfloat \<Rightarrow> bool" where
  "is_zero x \<longleftrightarrow> x = PosZero \<or> x = NegZero"

fun sign_bit :: "pyfloat \<Rightarrow> bool" where
  "sign_bit (Finite m e) = (m < 0)"
| "sign_bit PosZero = False"
| "sign_bit NegZero = True"
| "sign_bit PosInf = False"
| "sign_bit NegInf = True"
| "sign_bit NaN = False"

fun mantissa :: "pyfloat \<Rightarrow> int" where
  "mantissa (Finite m e) = m"
| "mantissa x = 0"

fun exponent :: "pyfloat \<Rightarrow> int" where
  "exponent (Finite m e) = e"
| "exponent x = 0"

text \<open>Float multiplication: the exact product, rounded.\<close>

definition fmul :: "pyfloat \<Rightarrow> pyfloat \<Rightarrow> pyfloat" where
  "fmul x y =
     (let neg = (sign_bit x \<noteq> sign_bit y) in
      if is_nan x \<or> is_nan y then NaN
      else if is_inf x \<or> is_inf y then
        (if is_zero x \<or> is_zero y then NaN else if neg then NegInf else PosInf)
      else if is_zero x \<or> is_zero y then (if neg then NegZero else PosZero)
      else
        let m = \<bar>mantissa x * mantissa y\<bar>; e = exponent x + exponent y
        in round_fraction neg (m * 2 ^ nat e) (2 ^ nat (- e)))"

text \<open>
  \<open>int(x)\<close> on a float truncates toward zero; it raises \<open>OverflowError\<close> on an
  infinity and \<open>ValueError\<close> on a NaN.
\<close>

fun int_of_float :: "pyfloat \<Rightarrow> pyerror + int" where
  "int_of_float (Finite m e) =
     Inr (if 0 \<le> e then m * 2 ^ nat e
          else if 0 \<le> m then m div 2 ^ nat (- e)
          else - ((- m) div 2 ^ nat (- e)))"
| "int_of_float PosZero = Inr 0"
| "int_of_float NegZero = Inr 0"
| "int_of_float PosInf = Inl OverflowError"
| "int_of_float NegInf = Inl OverflowError"
| "int_of_float NaN = Inl ValueError"

section \<open>The built-in \<open>float()\<close> on a string\<close>

text \<open>
  \<open>float(s)\<close> first maps every Unicode space to a blank and every Unicode decimal
  digit to its ASCII digit; code points below 127 are kept, and at any other code
  point the text is cut off after a question mark, which no number contains.
\<close>

fun transform_decimal_and_space :: "pystr \<Rightarrow> pystr" where
  "transform_decimal_and_space [] = []"
| "transform_decimal_and_space (c # cs) =
     (if c < 127 then c # transform_decimal_and_space cs
      else if is_space c then 32 # transform_decimal_and_space cs
      else case to_decimal c of
             None \<Rightarrow> [63]
           | Some d \<Rightarrow> (48 + d) # transform_decimal_and_space cs)"

text \<open>The ASCII white space that \<open>float()\<close> strips on both sides.\<close>

definition is_py_space :: "codepoint \<Rightarrow> bool" where
  "is_py_space c \<longleftrightarrow> (9 \<le> c \<and> c \<le> 13) \<or> c = 32"

text \<open>
  Underscores are allowed between two digits only and are dropped; \<open>prev\<close> is the
  character read before, 0 at the start.
\<close>

fun remove_underscores :: "codepoint \<Rightarrow> pystr \<Rightarrow> pystr option" where
  "remove_underscores prev [] = (if prev = 95 then None else Some [])"
| "remove_underscores prev (c # cs) =
     (if c = 95 then
        (if is_ascii_digit prev then remove_underscores c cs else None)
      else if prev = 95 \<and> \<not> is_ascii_digit c then None
      else map_option ((#) c) (remove_underscores c cs))"

definition digits_value :: "pystr \<Rightarrow> nat" where
  "digits_value ds = foldl (\<lambda>a c. 10 * a + (c - 48)) 0 ds"

text \<open>An optional sign: whether it is a minus, and the rest.\<close>

fun split_sign :: "pystr \<Rightarrow> bool \<times> pystr" where
  "split_sign [] = (False, [])"
| "split_sign (c # cs) =
     (if c = 45 then (True, cs) else if c = 43 then (False, cs) else (False, c # cs))"

text \<open>\<open>inf\<close>, \<open>infinity\<close> and \<open>nan\<close>, signed, in any letter case.\<close>

definition parse_inf_or_nan :: "pystr \<Rightarrow> pyfloat option" where
  "parse_inf_or_nan s =
     (let (neg, r) = split_sign s; body = map ascii_lower r in
      if body = ascii ''inf'' \<or> body = ascii ''infinity'' then
        Some (if neg then NegInf else PosInf)
      else if body = ascii ''nan'' then Some NaN
      else None)"

text \<open>
  A decimal numeral: a sign, digits with an optional point (at least one digit on
  one side of it), an optional exponent. The whole text must be read.
\<close>

definition parse_decimal :: "pystr \<Rightarrow> pyfloat option" where
  "parse_decimal s =
     (let (neg, r1) = split_sign s;
          ip = takeWhile is_ascii_digit r1;
          r2 = dropWhile is_ascii_digit r1;
          fp = (case r2 of [] \<Rightarrow> []
                | c # cs \<Rightarrow> if c = 46 then takeWhile is_ascii_digit cs else []);
          r3 = (case r2 of [] \<Rightarrow> []
                | c # cs \<Rightarrow> if c = 46 then dropWhile is_ascii_digit cs else r2);
          digits = digits_value (ip @ fp)
      in if ip = [] \<and> fp = [] then None
         else case r3 of
           [] \<Rightarrow> Some (float_of_decimal neg digits (- int (length fp)))
         | c # cs \<Rightarrow>
             if c = 101 \<or> c = 69 then
               (let (eneg, r4) = split_sign cs; ex = int (digits_value r4) in
                if r4 \<noteq> [] \<and> list_all is_ascii_digit r4 then
                  Some (float_of_decimal neg digits
                          ((if eneg then - ex else ex) - int (length fp)))
                else None)
             else None)"

definition py_float :: "pystr \<Rightarrow> pyerror + pyfloat" where
  "py_float s =
     (let t = strip_with is_py_space (transform_decimal_and_space s) in
      case (if 95 \<in> set t then remove_underscores 0 t else Some t) of
        None \<Rightarrow> Inl ValueError
      | Some u \<Rightarrow>
          (case parse_decimal u of
             Some x \<Rightarrow> Inr x
           | None \<Rightarrow>
               (case parse_inf_or_nan u of
                  Some x \<Rightarrow> Inr x
                | None \<Rightarrow> Inl ValueError)))"

section \<open>Value Normalizer\<close>

subsection \<open>\<open>convert_currency_to_number\<close>\<close>

text \<open>
  \<open>try: ... except ValueError: return 0\<close>: a \<open>ValueError\<close> becomes the result 0,
  any other exception goes on to the caller. (The warning printed is not modelled.)
\<close>

fun except_ValueError :: "pyerror + 'a \<Rightarrow> 'a \<Rightarrow> pyerror + 'a" where
  "except_ValueError (Inl ValueError) d = Inr d"
| "except_ValueError (Inl e) d = Inl e"
| "except_ValueError (Inr v) d = Inr v"

fun and_then :: "pyerror + 'a \<Rightarrow> ('a \<Rightarrow> pyerror + 'b) \<Rightarrow> pyerror + 'b" where
  "and_then (Inl e) f = Inl e"
| "and_then (Inr v) f = f v"

definition convert_currency_to_number :: "pystr \<Rightarrow> pyerror + int" where
  "convert_currency_to_number currency_str =
     (if \<not> list_ex is_digit currency_str then Inr 0
      else if currency_str = [] \<or> currency_str = ascii ''-'' then Inr 0
      else if \<not> str_in [euro] currency_str \<and> \<not> str_in (ascii ''m'') currency_str
                \<and> \<not> str_in (ascii ''k'') currency_str then
        except_ValueError (and_then (py_float currency_str) int_of_float) 0
      else
        let s = strip (remove_char euro currency_str);
            val =
              (if str_in (ascii ''m'') s then
                 and_then (py_float (remove_char 109 s))
                   (\<lambda>x. Inr (fmul x (float_of_int 1000000)))
               else if str_in (ascii ''k'') s then
                 and_then (py_float (remove_char 107 s))
                   (\<lambda>x. Inr (fmul x (float_of_int 1000)))
               else py_float s)
        in case val of
             Inl ValueError \<Rightarrow> Inr 0
           | Inl e \<Rightarrow> Inl e
           | Inr v \<Rightarrow> int_of_float v)"

subsection \<open>\<open>parse_percentage\<close>\<close>

text \<open>
  The pattern \<open>-?\d+\.?\d*\<close> tried at the start of \<open>s\<close>. It can only begin at a digit,
  or at a minus sign that a digit follows; every later part is greedy and optional,
  so no backtracking changes what is matched.
\<close>

definition match_number :: "pystr \<Rightarrow> pystr option" where
  "match_number s =
     (let sign = (case s of [] \<Rightarrow> []
                  | c # cs \<Rightarrow> (case cs of [] \<Rightarrow> []
                               | d # ds \<Rightarrow> if c = 45 \<and> is_digit d then [45] else []));
          r1 = drop (length sign) s;
          ip = takeWhile is_digit r1;
          r2 = dropWhile is_digit r1;
          point = (case r2 of [] \<Rightarrow> [] | c # cs \<Rightarrow> if c = 46 then [46] else []);
          fp = takeWhile is_digit (drop (length point) r2)
      in if ip = [] then None else Some (sign @ ip @ point @ fp))"

text \<open>\<open>re.search(r'(-?\d+\.?\d*)', s)\<close>: the leftmost match, its group 1.\<close>

fun search_number :: "pystr \<Rightarrow> pystr option" where
  "search_number [] = None"
| "search_number (c # cs) =
     (case match_number (c # cs) of
        Some g \<Rightarrow> Some g
      | None \<Rightarrow> search_number cs)"

text \<open>
  \<open>re.search(r'-?\d+\.?\d*\s*%?', s)\<close>, the shape check: the number, then any white
  space, then an optional percent sign.
\<close>

definition match_shape :: "pystr \<Rightarrow> pystr option" where
  "match_shape s =
     (case match_number s of
        None \<Rightarrow> None
      | Some g \<Rightarrow>
          (let r = drop (length g) s;
               ws = takeWhile is_space r;
               pct = (case dropWhile is_space r of [] \<Rightarrow> []
                      | c # cs \<Rightarrow> if c = 37 then [37] else [])
           in Some (g @ ws @ pct)))"

fun search_shape :: "pystr \<Rightarrow> pystr option" where
  "search_shape [] = None"
| "search_shape (c # cs) =
     (case match_shape (c # cs) of
        Some g \<Rightarrow> Some g
      | None \<Rightarrow> search_shape cs)"

text \<open>
  The conversion stands in \<open>try: ... except Exception\<close>, which catches every
  exception; the function then falls through to \<open>return 0.0\<close>.
\<close>

definition parse_percentage :: "pystr \<Rightarrow> pyerror + pyfloat" where
  "parse_percentage percentage_str =
     (if percentage_str = [] \<or> percentage_str = ascii ''-'' then Inr PosZero
      else if \<not> str_in (ascii ''%'') percentage_str
                \<and> search_shape percentage_str = None then Inr PosZero
      else case search_number percentage_str of
             None \<Rightarrow> Inr PosZero
           | Some g \<Rightarrow>
               (case py_float g of
                  Inr x \<Rightarrow> Inr x
                | Inl e \<Rightarrow> Inr PosZero))"

section \<open>Date Sequencer\<close>

subsection \<open>Calendar dates\<close>

text \<open>
  A \<open>datetime\<close> at midnight. The constructor accepts the years 1 to 9999 and the
  days that the month has, and raises \<open>ValueError\<close> otherwise.
\<close>

record date =
  year :: nat
  month :: nat
  day :: nat

definition is_leap :: "nat \<Rightarrow> bool" where
  "is_leap y \<longleftrightarrow> y mod 4 = 0 \<and> (y mod 100 \<noteq> 0 \<or> y mod 400 = 0)"

definition days_in_month :: "nat \<Rightarrow> nat \<Rightarrow> nat" where
  "days_in_month y m =
     (if m = 2 then (if is_leap y then 29 else 28)
      else if m = 4 \<or> m = 6 \<or> m = 9 \<or> m = 11 then 30
      else 31)"

definition valid_date :: "date \<Rightarrow> bool" where
  "valid_date d \<longleftrightarrow>
     1 \<le> year d \<and> year d \<le> 9999 \<and> 1 \<le> month d \<and> month d \<le> 12 \<and>
     1 \<le> day d \<and> day d \<le> days_in_month (year d) (month d)"

definition datetime :: "nat \<Rightarrow> nat \<Rightarrow> nat \<Rightarrow> pyerror + date" where
  "datetime y m d =
     (let r = \<lparr>year = y, month = m, day = d\<rparr> in
      if valid_date r then Inr r else Inl ValueError)"

text \<open>The orders \<open><=\<close> (of \<open>current <= end\<close>) and \<open><\<close> on dates.\<close>

definition date_le :: "date \<Rightarrow> date \<Rightarrow> bool" where
  "date_le a b \<longleftrightarrow>
     year a < year b \<or>
     (year a = year b \<and> (month a < month b \<or> (month a = month b \<and> day a \<le> day b)))"

definition date_less :: "date \<Rightarrow> date \<Rightarrow> bool" where
  "date_less a b \<longleftrightarrow>
     year a < year b \<or>
     (year a = year b \<and> (month a < month b \<or> (month a = month b \<and> day a < day b)))"

subsection \<open>\<open>strptime\<close> and \<open>strftime\<close> with the format \<open>%Y-%m-%d\<close>\<close>

text \<open>
  \<open>strptime\<close> matches the text against the regular expression
  \<open>(\d\d\d\d)-(1[0-2]|0[1-9]|[1-9])-(3[0-1]|[1-2]\d|0[1-9]|[1-9]| [1-9])\<close>
  from its start. The month is the first alternative that a hyphen follows; the day
  is the first alternative that matches, and text left over after it is an error.
  \<open>\d\<close> is any Unicode decimal digit.
\<close>

definition digit_val :: "codepoint \<Rightarrow> nat" where
  "digit_val c = (case to_decimal c of None \<Rightarrow> 0 | Some d \<Rightarrow> d)"

definition match_year :: "pystr \<Rightarrow> (nat \<times> pystr) option" where
  "match_year s =
     (case s of
        a # b # c # d # r \<Rightarrow>
          if is_digit a \<and> is_digit b \<and> is_digit c \<and> is_digit d then
            Some (1000 * digit_val a + 100 * digit_val b + 10 * digit_val c + digit_val d, r)
          else None
      | _ \<Rightarrow> None)"

text \<open>The month group and the hyphen after it.\<close>

definition match_month :: "pystr \<Rightarrow> (nat \<times> pystr) option" where
  "match_month s =
     (case s of
        a # b # c # r \<Rightarrow>
          if a = 49 \<and> 48 \<le> b \<and> b \<le> 50 \<and> c = 45 then Some (10 + (b - 48), r)
          else if a = 48 \<and> 49 \<le> b \<and> b \<le> 57 \<and> c = 45 then Some (b - 48, r)
          else if 49 \<le> a \<and> a \<le> 57 \<and> b = 45 then Some (a - 48, c # r)
          else None
      | [a, b] \<Rightarrow> if 49 \<le> a \<and> a \<le> 57 \<and> b = 45 then Some (a - 48, []) else None
      | _ \<Rightarrow> None)"

definition match_day :: "pystr \<Rightarrow> (nat \<times> pystr) option" where
  "match_day s =
     (case s of
        [] \<Rightarrow> None
      | [a] \<Rightarrow> if 49 \<le> a \<and> a \<le> 57 then Some (a - 48, []) else None
      | a # b # r \<Rightarrow>
          if a = 51 \<and> 48 \<le> b \<and> b \<le> 49 then Some (30 + (b - 48), r)
          else if 49 \<le> a \<and> a \<le> 50 \<and> is_digit b then Some (10 * (a - 48) + digit_val b, r)
          else if a = 48 \<and> 49 \<le> b \<and> b \<le> 57 then Some (b - 48, r)
          else if 49 \<le> a \<and> a \<le> 57 then Some (a - 48, b # r)
          else if a = 32 \<and> 49 \<le> b \<and> b \<le> 57 then Some (b - 48, r)
          else None)"

definition strptime :: "pystr \<Rightarrow> pyerror + date" where
  "strptime s =
     (case match_year s of
        None \<Rightarrow> Inl ValueError
      | Some (y, r1) \<Rightarrow>
          (case r1 of
             [] \<Rightarrow> Inl ValueError
           | h # r2 \<Rightarrow>
               if h \<noteq> 45 then Inl ValueError
               else case match_month r2 of
                 None \<Rightarrow> Inl ValueError
               | Some (m, r3) \<Rightarrow>
                   (case match_day r3 of
                      None \<Rightarrow> Inl ValueError
                    | Some (d, r4) \<Rightarrow>
                        if r4 \<noteq> [] then Inl ValueError else datetime y m d)))"

fun str_of_nat :: "nat \<Rightarrow> pystr" where
  "str_of_nat n = (if n < 10 then [48 + n] else str_of_nat (n div 10) @ [48 + n mod 10])"

declare str_of_nat.simps [simp del]

definition two_digits :: "nat \<Rightarrow> pystr" where
  "two_digits n = [48 + n div 10, 48 + n mod 10]"

text \<open>
  \<open>strftime\<close>: month and day take two digits. The year is written by the C library;
  glibc does not pad it, which shows only before the year 1000.
\<close>

definition strftime :: "date \<Rightarrow> pystr" where
  "strftime d = str_of_nat (year d) @ [45] @ two_digits (month d) @ [45] @ two_digits (day d)"

subsection \<open>\<open>generate_date_range\<close>\<close>

text \<open>
  The \<open>while current <= end\<close> loop, with the list \<open>dates\<close> built so far. Moving to the
  next month calls the \<open>datetime\<close> constructor, which can raise.
\<close>

function date_loop :: "date \<Rightarrow> date \<Rightarrow> pystr list \<Rightarrow> pyerror + pystr list" where
  "date_loop current end_date dates =
     (if date_le current end_date then
        (if day current = 1 then
           date_loop (current\<lparr>day := 15\<rparr>) end_date (dates @ [strftime current])
         else if month current = 12 then
           (case datetime (year current + 1) 1 1 of
              Inl e \<Rightarrow> Inl e
            | Inr next_date \<Rightarrow> date_loop next_date end_date (dates @ [strftime current]))
         else
           (case datetime (year current) (month current + 1) 1 of
              Inl e \<Rightarrow> Inl e
            | Inr next_date \<Rightarrow> date_loop next_date end_date (dates @ [strftime current])))
      else Inr dates)"
  by pat_completeness auto
termination
  by (relation "measures [\<lambda>(c, e, ds). 10000 - year c,
                          \<lambda>(c, e, ds). 13 - month c,
                          \<lambda>(c, e, ds). if day c = 1 then 1 else 0]")
     (auto simp: datetime_def valid_date_def Let_def split: if_splits)

declare date_loop.simps [simp del]

definition snap_start :: "date \<Rightarrow> date" where
  "snap_start start = (if day start < 15 then start\<lparr>day := 1\<rparr> else start\<lparr>day := 15\<rparr>)"

definition generate_date_range :: "pystr \<Rightarrow> pystr \<Rightarrow> pyerror + pystr list" where
  "generate_date_range start_date end_date =
     (case strptime start_date of
        Inl e \<Rightarrow> Inl e
      | Inr start \<Rightarrow>
          (case strptime end_date of
             Inl e \<Rightarrow> Inl e
           | Inr end_d \<Rightarrow> date_loop (snap_start start) end_d []))"

section \<open>Table Extractor\<close>

subsection \<open>Parsed markup\<close>

text \<open>
  What the markup parser hands over: a cell (\<open>th\<close> or \<open>td\<close>) with the list of its
  style classes (empty when it has no \<open>class\<close> attribute) and its stripped text, a body
  row with its classes and cells, and the table with its header row, if any.
\<close>

record cell =
  cell_class :: "pystr list"
  cell_text :: pystr

record body_row =
  row_class :: "pystr list"
  row_cells :: "cell list"

record table =
  header_row :: "cell list option"
  body_rows :: "body_row list"

subsection \<open>Header derivation\<close>

text \<open>
  \<open>re.search(r'Value \w+ \d+', header_text)\<close>. The class \<open>\w\<close> is a table of the
  regular expression engine and not of this program; it is the parameter \<open>W\<close>.
  \<open>word_then_date\<close> is \<open>\w+ \d+\<close> at the start of the text: one or more word
  characters, a blank, a digit.
\<close>

definition blank_digit :: "pystr \<Rightarrow> bool" where
  "blank_digit s = (case s of b # d # r \<Rightarrow> b = 32 \<and> is_digit d | _ \<Rightarrow> False)"

fun word_then_date :: "(codepoint \<Rightarrow> bool) \<Rightarrow> pystr \<Rightarrow> bool" where
  "word_then_date W [] = False"
| "word_then_date W (c # cs) = (W c \<and> (blank_digit cs \<or> word_then_date W cs))"

fun search_value_date :: "(codepoint \<Rightarrow> bool) \<Rightarrow> pystr \<Rightarrow> bool" where
  "search_value_date W [] = False"
| "search_value_date W (c # cs) =
     ((starts_with (ascii ''Value '') (c # cs) \<and> word_then_date W (drop 6 (c # cs)))
      \<or> search_value_date W cs)"

text \<open>
  \<open>header_text.lower()\<close>, as far as the test for \<open>"value"\<close> can see: outside ASCII no
  code point has a lower case with one of the letters of that word.
\<close>

definition lower :: "pystr \<Rightarrow> pystr" where
  "lower s = map ascii_lower s"

definition canonical_header :: "(codepoint \<Rightarrow> bool) \<Rightarrow> pystr \<Rightarrow> pystr" where
  "canonical_header W header_text =
     (if header_text = [] then ascii ''Rank''
      else if str_in (ascii ''Club'') header_text then ascii ''Club''
      else if search_value_date W header_text \<or> str_in (ascii ''value'') (lower header_text)
        then ascii ''Value''
      else header_text)"

definition hidden_header :: "cell \<Rightarrow> bool" where
  "hidden_header th \<longleftrightarrow> cell_class th \<noteq> [] \<and> ascii ''hide'' \<in> set (cell_class th)"

definition header_labels :: "(codepoint \<Rightarrow> bool) \<Rightarrow> cell list \<Rightarrow> pystr list" where
  "header_labels W ths =
     map (\<lambda>th. canonical_header W (cell_text th)) (filter (\<lambda>th. \<not> hidden_header th) ths)"

text \<open>The name of the \<open>value_count\<close>-th value column.\<close>

definition value_label :: "nat \<Rightarrow> pystr" where
  "value_label value_count =
     (if 1 < value_count then ascii ''Value_'' @ str_of_nat value_count else ascii ''Value'')"

text \<open>The loop over \<open>headers\<close> that builds \<open>final_headers\<close> and counts in \<open>value_count\<close>.\<close>

fun dedup_loop :: "pystr list \<Rightarrow> pystr list \<Rightarrow> nat \<Rightarrow> pystr list" where
  "dedup_loop [] final_headers value_count = final_headers"
| "dedup_loop (h # hs) final_headers value_count =
     (if h = ascii ''Value'' then
        dedup_loop hs (final_headers @ [value_label (value_count + 1)]) (value_count + 1)
      else if h \<notin> set final_headers then dedup_loop hs (final_headers @ [h]) value_count
      else dedup_loop hs final_headers value_count)"

definition final_header_list :: "pystr list \<Rightarrow> pystr list" where
  "final_header_list headers = dedup_loop headers [] 0"

subsection \<open>Row derivation\<close>

datatype pyvalue = PyStr pystr | PyInt int | PyFloat pyfloat

type_synonym row_data = "pystr \<rightharpoonup> pyvalue"

definition skipped_row :: "body_row \<Rightarrow> bool" where
  "skipped_row row \<longleftrightarrow>
     row_class row \<noteq> [] \<and>
     (ascii ''thead'' \<in> set (row_class row) \<or> ascii ''tfoot'' \<in> set (row_class row))"

definition hidden_cell :: "cell \<Rightarrow> bool" where
  "hidden_cell td \<longleftrightarrow>
     cell_class td \<noteq> [] \<and> ascii ''no-border-rechts'' \<in> set (cell_class td)
       \<and> ascii ''zentriert'' \<in> set (cell_class td)"

definition cells_data :: "body_row \<Rightarrow> pystr list" where
  "cells_data row = map cell_text (filter (\<lambda>td. \<not> hidden_cell td) (row_cells row))"

text \<open>\<open>for header in headers: row_data[header] = ""\<close>\<close>

fun init_row :: "pystr list \<Rightarrow> row_data \<Rightarrow> row_data" where
  "init_row [] row = row"
| "init_row (h # hs) row = init_row hs (row(h \<mapsto> PyStr []))"

text \<open>
  \<open>for i, header in enumerate(headers)\<close>: the headers still to visit, the index \<open>i\<close> of
  the first of them, and the row built so far. A normalizer that raises ends the loop.
\<close>

fun map_cells :: "pystr list \<Rightarrow> nat \<Rightarrow> pystr list \<Rightarrow> row_data \<Rightarrow> pyerror + row_data" where
  "map_cells [] i cells row = Inr row"
| "map_cells (h # hs) i cells row =
     (if i < length cells then
        (if str_in (ascii ''Value'') h then
           (case convert_currency_to_number (cells ! i) of
              Inl e \<Rightarrow> Inl e
            | Inr n \<Rightarrow> map_cells hs (i + 1) cells (row(h \<mapsto> PyInt n)))
         else if str_in (ascii ''%'') h \<and> i < length cells then
           (case parse_percentage (cells ! i) of
              Inl e \<Rightarrow> Inl e
            | Inr x \<Rightarrow> map_cells hs (i + 1) cells (row(h \<mapsto> PyFloat x)))
         else map_cells hs (i + 1) cells (row(h \<mapsto> PyStr (cells ! i))))
      else map_cells hs (i + 1) cells row)"

text \<open>The truth value of a Python value in a condition.\<close>

fun truthy :: "pyvalue \<Rightarrow> bool" where
  "truthy (PyStr s) = (s \<noteq> [])"
| "truthy (PyInt n) = (n \<noteq> 0)"
| "truthy (PyFloat x) = (\<not> is_zero x)"

text \<open>\<open>row_data and "Club" in row_data and row_data["Club"]\<close>\<close>

definition has_club :: "row_data \<Rightarrow> bool" where
  "has_club row \<longleftrightarrow>
     row \<noteq> Map.empty \<and> (case row (ascii ''Club'') of None \<Rightarrow> False | Some v \<Rightarrow> truthy v)"

text \<open>The loop over the body rows, with \<open>teams_data\<close> built so far.\<close>

fun rows_loop :: "pystr list \<Rightarrow> body_row list \<Rightarrow> row_data list \<Rightarrow> pyerror + row_data list" where
  "rows_loop headers [] teams_data = Inr teams_data"
| "rows_loop headers (row # rows) teams_data =
     (if skipped_row row then rows_loop headers rows teams_data
      else if length (cells_data row) < 2 then rows_loop headers rows teams_data
      else case map_cells headers 0 (cells_data row) (init_row headers Map.empty) of
             Inl e \<Rightarrow> Inl e
           | Inr row_data \<Rightarrow>
               if has_club row_data then rows_loop headers rows (teams_data @ [row_data])
               else rows_loop headers rows teams_data)"

record extraction =
  headers :: "pystr list"
  data :: "row_data list"

text \<open>
  The extraction from the parsed page: \<open>None\<close> when the table or its header row is
  missing, and when an exception reaches the \<open>except Exception\<close> around the whole body.
\<close>

definition extract_table :: "(codepoint \<Rightarrow> bool) \<Rightarrow> table option \<Rightarrow> extraction option" where
  "extract_table W page =
     (case page of
        None \<Rightarrow> None
      | Some t \<Rightarrow>
          (case header_row t of
             None \<Rightarrow> None
           | Some ths \<Rightarrow>
               (let hs = final_header_list (header_labels W ths) in
                case rows_loop hs (body_rows t) [] of
                  Inl e \<Rightarrow> None
                | Inr teams_data \<Rightarrow> Some \<lparr>headers = hs, data = teams_data\<rparr>)))"

subsection \<open>\<open>scrape_bundesliga_market_values\<close>\<close>





section \<open>CSV sink\<close>

text \<open>
  A file is the list of its lines, a line the list of the values handed to the CSV
  writer (their text encoding is not modelled). The file system maps the names of
  the files that exist to their contents.
\<close>

type_synonym csv_line = "pyvalue list"
type_synonym filesystem = "pystr \<rightharpoonup> csv_line list"

text \<open>
  The \<open>data\<close> argument: \<open>None\<close>, or a dictionary that may have the keys \<open>"headers"\<close> and
  \<open>"data"\<close>.
\<close>

record result_dict =
  headers_key :: "pystr list option"
  data_key :: "row_data list option"

text \<open>
  \<open>DictWriter.writerow\<close>: a key that is not a field name raises \<open>ValueError\<close>; the line
  has the value of every field name in order, the empty string where the row has none.
\<close>

definition row_line :: "pystr list \<Rightarrow> row_data \<Rightarrow> csv_line" where
  "row_line fieldnames rowdict =
     map (\<lambda>k. case rowdict k of None \<Rightarrow> PyStr [] | Some v \<Rightarrow> v) fieldnames"

definition dict_to_line :: "pystr list \<Rightarrow> row_data \<Rightarrow> pyerror + csv_line" where
  "dict_to_line fieldnames rowdict =
     (if dom rowdict \<subseteq> set fieldnames then Inr (row_line fieldnames rowdict)
      else Inl ValueError)"

definition date_field :: "pystr option \<Rightarrow> pyvalue" where
  "date_field date = (case date of None \<Rightarrow> PyStr [] | Some d \<Rightarrow> PyStr d)"

text \<open>\<open>row_with_date = {"Date": ...}; row_with_date.update(row)\<close>\<close>

definition row_with_date :: "pystr option \<Rightarrow> row_data \<Rightarrow> row_data" where
  "row_with_date date row = [ascii ''Date'' \<mapsto> date_field date] ++ row"

text \<open>
  The loop over \<open>data["data"]\<close>, appending to the open file. The \<open>except Exception\<close>
  around it turns an exception into the result \<open>False\<close>; the lines written before stay.
\<close>

fun write_rows ::
  "pystr list \<Rightarrow> pystr option \<Rightarrow> row_data list \<Rightarrow> csv_line list \<Rightarrow> bool \<times> csv_line list" where
  "write_rows fieldnames date [] content = (True, content)"
| "write_rows fieldnames date (row # rows) content =
     (case dict_to_line fieldnames (row_with_date date row) of
        Inl e \<Rightarrow> (False, content)
      | Inr line \<Rightarrow> write_rows fieldnames date rows (content @ [line]))"

definition header_line :: "pystr list \<Rightarrow> csv_line" where
  "header_line fieldnames = map PyStr fieldnames"

definition save_to_csv ::
  "result_dict option \<Rightarrow> pystr \<Rightarrow> pystr option \<Rightarrow> filesystem \<Rightarrow> bool \<times> filesystem" where
  "save_to_csv data_arg filename date fs =
     (case data_arg of
        None \<Rightarrow> (False, fs)
      | Some d \<Rightarrow>
          (case headers_key d of
             None \<Rightarrow> (False, fs)
           | Some hs \<Rightarrow>
               (case data_key d of
                  None \<Rightarrow> (False, fs)
                | Some rows \<Rightarrow>
                    (let fieldnames = ascii ''Date'' # hs;
                         start = (case fs filename of
                                    None \<Rightarrow> [header_line fieldnames]
                                  | Some content \<Rightarrow> content);
                         (ok, content) = write_rows fieldnames date rows start
                     in (ok, fs(filename \<mapsto> content))))))"

section \<open>Evaluation on ASCII text\<close>

lemma to_decimal_ascii:
  "c < 1632 \<Longrightarrow> to_decimal c = (if 48 \<le> c \<and> c \<le> 57 then Some (c - 48) else None)"
  by (simp add: to_decimal_def decimal_zeros_def)

lemma is_digit_ascii: "c < 1632 \<Longrightarrow> is_digit c = (48 \<le> c \<and> c \<le> 57)"
  by (simp add: is_digit_def to_decimal_ascii)

lemmas str_defs = ascii_def euro_def is_space_def is_digit_ascii to_decimal_ascii
  is_ascii_digit_def ascii_lower_def remove_char_def strip_def strip_with_def is_py_space_def

lemmas float_defs = float_of_decimal_def round_fraction_def floor_log2_def round_half_even_def
  float_of_int_def fmul_def is_nan_def is_inf_def is_zero_def bit_length.simps Let_def

lemmas parse_defs = py_float_def parse_decimal_def parse_inf_or_nan_def digits_value_def

lemmas date_defs = strptime_def match_year_def match_month_def match_day_def digit_val_def
  datetime_def valid_date_def days_in_month_def is_leap_def date_le_def snap_start_def
  strftime_def two_digits_def str_of_nat.simps Let_def

section \<open>Value Normalizer: the fixtures\<close>

lemma float_944_70: "float_of_decimal False 94470 (- 2) = Finite 8309669078079898 (- 43)"
  by (simp add: float_defs)

lemma float_million: "float_of_int 1000000 = Finite 8589934592000000 (- 33)"
  by (simp add: float_defs)

lemma float_944_70_million:
  "fmul (Finite 8309669078079898 (- 43)) (Finite 8589934592000000 (- 33)) =
     Finite 7924717977600000 (- 23)"
  by (simp add: float_defs)

lemma currency_944_70m: "convert_currency_to_number (euro # ascii ''944.70m'') = Inr 944700000"
  by (simp add: convert_currency_to_number_def str_defs parse_defs
        float_944_70 float_million float_944_70_million)

lemma currency_500k: "convert_currency_to_number (euro # ascii ''500k'') = Inr 500000"
  by (simp add: convert_currency_to_number_def str_defs parse_defs float_defs)

lemma currency_no_digit:
  "convert_currency_to_number (ascii ''-'') = Inr 0"
  "convert_currency_to_number [] = Inr 0"
  "convert_currency_to_number (ascii ''abc'') = Inr 0"
  by (simp_all add: convert_currency_to_number_def str_defs)

lemma match_number_5_1: "match_number (ascii ''5.1 %'') = Some (ascii ''5.1'')"
  by (simp add: match_number_def str_defs Let_def)

lemma match_number_minus_3_2: "match_number (ascii ''-3.2%'') = Some (ascii ''-3.2'')"
  by (simp add: match_number_def str_defs Let_def)

lemma float_5_1: "py_float (ascii ''5.1'') = Inr (float_of_decimal False 51 (- 1))"
  by (simp add: str_defs parse_defs)

lemma float_minus_3_2: "py_float (ascii ''-3.2'') = Inr (float_of_decimal True 32 (- 1))"
  by (simp add: str_defs parse_defs)

lemma percentage_5_1: "parse_percentage (ascii ''5.1 %'') = Inr (float_of_decimal False 51 (- 1))"
proof -
  have "search_number (ascii ''5.1 %'') = Some (ascii ''5.1'')"
    using match_number_5_1 by (simp add: ascii_def)
  moreover have "str_in (ascii ''%'') (ascii ''5.1 %'')"
    by (simp add: ascii_def)
  moreover have "ascii ''5.1 %'' \<noteq> [] \<and> ascii ''5.1 %'' \<noteq> ascii ''-''"
    by (simp add: ascii_def)
  ultimately show ?thesis
    by (simp add: parse_percentage_def float_5_1)
qed

lemma percentage_minus_3_2:
  "parse_percentage (ascii ''-3.2%'') = Inr (float_of_decimal True 32 (- 1))"
proof -
  have "search_number (ascii ''-3.2%'') = Some (ascii ''-3.2'')"
    using match_number_minus_3_2 by (simp add: ascii_def)
  moreover have "str_in (ascii ''%'') (ascii ''-3.2%'')"
    by (simp add: ascii_def)
  moreover have "ascii ''-3.2%'' \<noteq> [] \<and> ascii ''-3.2%'' \<noteq> ascii ''-''"
    by (simp add: ascii_def)
  ultimately show ?thesis
    by (simp add: parse_percentage_def float_minus_3_2)
qed

lemma literal_5_1: "float_of_decimal False 51 (- 1) = Finite 5742089524897382 (- 50)"
  by (simp add: float_defs)

lemma literal_minus_3_2: "float_of_decimal True 32 (- 1) = Finite (- 7205759403792794) (- 51)"
  by (simp add: float_defs)

text \<open>
  Claim C1. The Value Normalizer meets the literal fixtures of the specification: the
  currency texts \<open>EUR944.70m\<close>, \<open>EUR500k\<close> (with the euro sign), \<open>-\<close>, the empty text and
  \<open>abc\<close> give 944700000, 500000, 0, 0 and 0; the percentage texts \<open>5.1 %\<close>, \<open>-\<close> and
  \<open>-3.2%\<close> give the floats that the literals \<open>5.1\<close>, \<open>0.0\<close> and \<open>-3.2\<close> denote, which are
  \<open>5742089524897382 * 2 ^ (- 50)\<close>, zero and \<open>- 7205759403792794 * 2 ^ (- 51)\<close>.
\<close>

theorem value_normalizer_fixtures:
  "convert_currency_to_number (euro # ascii ''944.70m'') = Inr 944700000 \<and>
   convert_currency_to_number (euro # ascii ''500k'') = Inr 500000 \<and>
   convert_currency_to_number (ascii ''-'') = Inr 0 \<and>
   convert_currency_to_number [] = Inr 0 \<and>
   convert_currency_to_number (ascii ''abc'') = Inr 0 \<and>
   parse_percentage (ascii ''5.1 %'') = Inr (float_of_decimal False 51 (- 1)) \<and>
   float_of_decimal False 51 (- 1) = Finite 5742089524897382 (- 50) \<and>
   parse_percentage (ascii ''-'') = Inr PosZero \<and>
   parse_percentage (ascii ''-3.2%'') = Inr (float_of_decimal True 32 (- 1)) \<and>
   float_of_decimal True 32 (- 1) = Finite (- 7205759403792794) (- 51)"
proof -
  have "parse_percentage (ascii ''-'') = Inr PosZero"
    by (simp add: parse_percentage_def)
  then show ?thesis
    by (simp only: currency_944_70m currency_500k currency_no_digit percentage_5_1
          percentage_minus_3_2 literal_5_1 literal_minus_3_2 simp_thms)
qed

section \<open>Value Normalizer: totality\<close>

lemma parse_percentage_total: "\<exists>x. parse_percentage s = Inr x"
  by (simp add: parse_percentage_def split: option.splits sum.splits)

lemma float_1e309: "float_of_decimal False (Suc 0) 309 = PosInf"
  by (simp add: float_defs)

text \<open>
  Claim C2. Both normalizers should return a value on every text. \<open>parse_percentage\<close>
  does (\<open>parse_percentage_total\<close>). \<open>convert_currency_to_number\<close> does not: on the text
  \<open>1e309\<close>, which has a digit and no currency marker, \<open>float\<close> gives infinity and
  \<open>int\<close> raises \<open>OverflowError\<close>, which \<open>except ValueError\<close> does not catch.
\<close>

theorem convert_currency_to_number_overflow:
  "convert_currency_to_number (ascii ''1e309'') = Inl OverflowError"
  by (simp add: convert_currency_to_number_def str_defs parse_defs float_1e309)

section \<open>Table Extractor: the header list\<close>

lemma dedup_loop_snoc_value:
  "dedup_loop (hs @ [ascii ''Value'']) fh vc =
     dedup_loop hs fh vc @ [value_label (Suc (vc + count_list hs (ascii ''Value'')))]"
  by (induction hs arbitrary: fh vc) simp_all

lemma dedup_loop_snoc_other:
  "h \<noteq> ascii ''Value'' \<Longrightarrow>
   dedup_loop (hs @ [h]) fh vc =
     (if h \<in> set (dedup_loop hs fh vc) then dedup_loop hs fh vc
      else dedup_loop hs fh vc @ [h])"
  by (induction hs arbitrary: fh vc) simp_all

lemma final_header_list_snoc:
  "final_header_list (hs @ [h]) =
     (if h = ascii ''Value'' then
        final_header_list hs @ [value_label (Suc (count_list hs (ascii ''Value'')))]
      else if h \<in> set (final_header_list hs) then final_header_list hs
      else final_header_list hs @ [h])"
  by (simp add: final_header_list_def dedup_loop_snoc_value dedup_loop_snoc_other)

lemma value_label_first: "value_label (Suc 0) = ascii ''Value''"
  by (simp add: value_label_def)

lemma value_label_later: "1 < k \<Longrightarrow> value_label k \<noteq> ascii ''Value''"
  by (simp add: value_label_def ascii_def)

lemma count_value_final:
  "count_list (final_header_list hs) (ascii ''Value'') = (if ascii ''Value'' \<in> set hs then 1 else 0)"
proof (induction hs rule: rev_induct)
  case Nil
  show ?case by (simp add: final_header_list_def)
next
  case (snoc h hs)
  show ?case
  proof (cases "h = ascii ''Value''")
    case True
    show ?thesis
    proof (cases "ascii ''Value'' \<in> set hs")
      case True
      then have "count_list hs (ascii ''Value'') \<noteq> 0"
        by (simp add: count_list_0_iff)
      then have "0 < count_list hs (ascii ''Value'')"
        by simp
      then have "value_label (Suc (count_list hs (ascii ''Value''))) \<noteq> ascii ''Value''"
        by (intro value_label_later) simp
      with snoc True \<open>h = ascii ''Value''\<close> show ?thesis
        by (simp add: final_header_list_snoc)
    next
      case False
      then have "count_list hs (ascii ''Value'') = 0"
        by (simp add: count_list_0_iff)
      with snoc False \<open>h = ascii ''Value''\<close> show ?thesis
        by (simp add: final_header_list_snoc value_label_first)
    qed
  next
    case False
    with snoc show ?thesis
      by (simp add: final_header_list_snoc)
  qed
qed

lemma starts_with_append: "starts_with p (p @ s)"
  by (induction p) simp_all

lemma starts_with_str_in: "starts_with p s \<Longrightarrow> str_in p s"
  by (cases s) (auto elim: starts_with.elims)

lemma starts_with_map: "starts_with p s \<Longrightarrow> starts_with (map f p) (map f s)"
  by (induction p s rule: starts_with.induct) simp_all

lemma starts_with_value_label: "starts_with (ascii ''Value'') (value_label k)"
  by (simp add: value_label_def ascii_def)

lemma canonical_header_value_prefix:
  assumes "starts_with (ascii ''Value'') (canonical_header W t)"
  shows "canonical_header W t = ascii ''Value''"
proof (rule ccontr)
  assume ne: "canonical_header W t \<noteq> ascii ''Value''"
  have rank: "\<not> starts_with (ascii ''Value'') (ascii ''Rank'')"
    and club: "\<not> starts_with (ascii ''Value'') (ascii ''Club'')"
    by (simp_all add: ascii_def)
  from ne assms rank club have t: "canonical_header W t = t"
    and no: "\<not> str_in (ascii ''value'') (lower t)"
    by (auto simp: canonical_header_def split: if_splits)
  from assms t have "starts_with (ascii ''Value'') t" by simp
  then have "starts_with (map ascii_lower (ascii ''Value'')) (map ascii_lower t)"
    by (rule starts_with_map)
  then have "starts_with (ascii ''value'') (lower t)"
    by (simp add: lower_def ascii_def ascii_lower_def)
  then have "str_in (ascii ''value'') (lower t)"
    by (rule starts_with_str_in)
  with no show False by simp
qed

lemma value_labels_in_order:
  assumes "\<forall>h \<in> set hs. starts_with (ascii ''Value'') h \<longrightarrow> h = ascii ''Value''"
  shows "filter (starts_with (ascii ''Value'')) (final_header_list hs) =
           map value_label [1..<Suc (count_list hs (ascii ''Value''))]"
  using assms
proof (induction hs rule: rev_induct)
  case Nil
  show ?case by (simp add: final_header_list_def)
next
  case (snoc h hs)
  then have IH: "filter (starts_with (ascii ''Value'')) (final_header_list hs) =
                   map value_label [1..<Suc (count_list hs (ascii ''Value''))]"
    by simp
  show ?case
  proof (cases "h = ascii ''Value''")
    case True
    then show ?thesis
      by (simp add: final_header_list_snoc IH starts_with_value_label)
  next
    case False
    with snoc.prems have "\<not> starts_with (ascii ''Value'') h" by auto
    with False show ?thesis
      by (simp add: final_header_list_snoc IH)
  qed
qed

lemma digits_value_snoc: "digits_value (ds @ [c]) = 10 * digits_value ds + (c - 48)"
  by (simp add: digits_value_def)

lemma digits_value_str_of_nat: "digits_value (str_of_nat n) = n"
proof (induction n rule: str_of_nat.induct)
  case (1 n)
  show ?case
  proof (cases "n < 10")
    case True
    then show ?thesis
      by (subst str_of_nat.simps) (simp add: digits_value_def)
  next
    case False
    with 1 have "digits_value (str_of_nat (n div 10)) = n div 10" by simp
    with False show ?thesis
      by (subst str_of_nat.simps) (simp add: digits_value_snoc)
  qed
qed

lemma str_of_nat_inj: "str_of_nat j = str_of_nat k \<Longrightarrow> j = k"
  by (metis digits_value_str_of_nat)

lemma value_label_small: "\<not> 1 < k \<Longrightarrow> value_label k = ascii ''Value''"
  by (simp add: value_label_def)

lemma value_label_inj:
  assumes eq: "value_label j = value_label k" and j: "1 \<le> j" and k: "1 \<le> k"
  shows "j = k"
proof (cases "1 < j")
  case True
  have "1 < k"
  proof (rule ccontr)
    assume "\<not> 1 < k"
    then have "value_label k = ascii ''Value''" by (rule value_label_small)
    with eq value_label_later [OF True] show False by simp
  qed
  with True eq show ?thesis
    by (simp add: value_label_def str_of_nat_inj)
next
  case False
  then have vj: "value_label j = ascii ''Value''" by (rule value_label_small)
  have "\<not> 1 < k"
  proof
    assume "1 < k"
    from value_label_later [OF this] eq vj show False by simp
  qed
  with False j k show ?thesis by simp
qed

lemma final_header_list_distinct:
  assumes "\<forall>h \<in> set hs. starts_with (ascii ''Value'') h \<longrightarrow> h = ascii ''Value''"
  shows "distinct (final_header_list hs)"
  using assms
proof (induction hs rule: rev_induct)
  case Nil
  show ?case by (simp add: final_header_list_def)
next
  case (snoc h hs)
  then have IH: "distinct (final_header_list hs)"
    and pre: "\<forall>h \<in> set hs. starts_with (ascii ''Value'') h \<longrightarrow> h = ascii ''Value''"
    by simp_all
  show ?case
  proof (cases "h = ascii ''Value''")
    case True
    let ?n = "count_list hs (ascii ''Value'')"
    have "value_label (Suc ?n) \<notin> set (final_header_list hs)"
    proof
      assume "value_label (Suc ?n) \<in> set (final_header_list hs)"
      then have "value_label (Suc ?n)
                   \<in> set (filter (starts_with (ascii ''Value'')) (final_header_list hs))"
        by (simp add: starts_with_value_label)
      then have "value_label (Suc ?n) \<in> value_label ` {1..<Suc ?n}"
        by (simp only: value_labels_in_order [OF pre] set_map set_upt)
      then obtain j where "1 \<le> j" "j < Suc ?n" "value_label (Suc ?n) = value_label j"
        by auto
      then show False
        using value_label_inj [of "Suc ?n" j] by simp
    qed
    with True IH show ?thesis
      by (simp add: final_header_list_snoc)
  next
    case False
    with IH show ?thesis
      by (simp add: final_header_list_snoc)
  qed
qed

lemma header_labels_canonical:
  "\<forall>h \<in> set (header_labels W ths). starts_with (ascii ''Value'') h \<longrightarrow> h = ascii ''Value''"
  by (auto simp: header_labels_def dest: canonical_header_value_prefix)

text \<open>
  Claim C3. The dedup pass, for every list of labels and every further label \<open>h\<close> after
  them: an occurrence of \<open>Value\<close> is never dropped and is appended under the name of its
  rank among the occurrences (\<open>Value\<close>, \<open>Value_2\<close>, \<open>Value_3\<close>, ...); any other label is
  dropped when an equal label is already retained and is appended at the end otherwise,
  so that the retained labels keep their order. The final list has at most one label
  equal to \<open>Value\<close>. On canonicalized header labels, the labels of the final list that
  begin with \<open>Value\<close> are exactly \<open>Value\<close>, \<open>Value_2\<close>, ... in this order, one for each
  occurrence, and the final list has no label twice.
\<close>

theorem header_dedup:
  "final_header_list [] = [] \<and>
   final_header_list (hs @ [h]) =
     (if h = ascii ''Value'' then
        final_header_list hs @ [value_label (Suc (count_list hs (ascii ''Value'')))]
      else if h \<in> set (final_header_list hs) then final_header_list hs
      else final_header_list hs @ [h]) \<and>
   count_list (final_header_list hs) (ascii ''Value'') \<le> 1 \<and>
   filter (starts_with (ascii ''Value'')) (final_header_list (header_labels W ths)) =
     map value_label [1..<Suc (count_list (header_labels W ths) (ascii ''Value''))] \<and>
   distinct (final_header_list (header_labels W ths))"
proof -
  have "final_header_list [] = []"
    by (simp add: final_header_list_def)
  moreover note final_header_list_snoc [of hs h]
  moreover have "count_list (final_header_list hs) (ascii ''Value'') \<le> 1"
    by (simp add: count_value_final)
  moreover note value_labels_in_order [OF header_labels_canonical, of W ths]
  moreover note final_header_list_distinct [OF header_labels_canonical, of W ths]
  ultimately show ?thesis by blast
qed

text \<open>
  Claim C4. The raw header cell texts \<open>""\<close>, \<open>Club\<close>, \<open>Value Oct 1, 2024\<close> and
  \<open>Value Oct 1, 2023\<close> give the final header list \<open>Rank\<close>, \<open>Club\<close>, \<open>Value\<close>, \<open>Value_2\<close>.
\<close>

theorem header_fixture:
  "final_header_list
     (header_labels W
        (map (\<lambda>t. \<lparr>cell_class = [], cell_text = t\<rparr>)
           [[], ascii ''Club'', ascii ''Value Oct 1, 2024'', ascii ''Value Oct 1, 2023''])) =
   [ascii ''Rank'', ascii ''Club'', ascii ''Value'', ascii ''Value_2'']"
  by (simp add: final_header_list_def header_labels_def hidden_header_def
        canonical_header_def lower_def value_label_def str_of_nat.simps blank_digit_def
        str_defs)

section \<open>Table Extractor: the rows\<close>

lemma dom_init_row: "dom (init_row hs row) = dom row \<union> set hs"
  by (induction hs arbitrary: row) auto

lemma init_row_str:
  "(\<forall>v. row k = Some v \<longrightarrow> (\<exists>s. v = PyStr s)) \<Longrightarrow>
   (\<forall>v. init_row hs row k = Some v \<longrightarrow> (\<exists>s. v = PyStr s))"
proof (induction hs arbitrary: row)
  case Nil
  then show ?case by simp
next
  case (Cons h hs)
  from Cons.prems have "\<forall>v. (row(h \<mapsto> PyStr [])) k = Some v \<longrightarrow> (\<exists>s. v = PyStr s)"
    by simp
  then have "\<forall>v. init_row hs (row(h \<mapsto> PyStr [])) k = Some v \<longrightarrow> (\<exists>s. v = PyStr s)"
    by (rule Cons.IH)
  then show ?case by (simp only: init_row.simps)
qed

lemma map_cells_dom:
  "set hs \<subseteq> dom row \<Longrightarrow> map_cells hs i cells row = Inr d \<Longrightarrow> dom d = dom row"
proof (induction hs arbitrary: i row)
  case Nil
  then show ?case by simp
next
  case (Cons h hs)
  from Cons.prems(1) have h: "h \<in> dom row" and hs: "set hs \<subseteq> dom row"
    by simp_all
  have step: "dom d = dom row" if "map_cells hs j cells (row(h \<mapsto> v)) = Inr d" for j v
  proof -
    have same: "dom (row(h \<mapsto> v)) = dom row"
      using h by (simp add: insert_absorb)
    with hs have "set hs \<subseteq> dom (row(h \<mapsto> v))" by (simp only:)
    from Cons.IH [OF this that] show ?thesis by (simp only: same)
  qed
  show ?case
  proof (cases "i < length cells")
    case False
    with Cons.prems(2) have "map_cells hs (i + 1) cells row = Inr d" by simp
    from Cons.IH [OF hs this] show ?thesis .
  next
    case True
    show ?thesis
    proof (cases "str_in (ascii ''Value'') h")
      case v: True
      with True Cons.prems(2) obtain n where
        "map_cells hs (i + 1) cells (row(h \<mapsto> PyInt n)) = Inr d"
        by (auto simp del: fun_upd_apply split: sum.splits)
      then show ?thesis by (rule step)
    next
      case v: False
      show ?thesis
      proof (cases "str_in (ascii ''%'') h")
        case p: True
        with True v Cons.prems(2) obtain x where
          "map_cells hs (i + 1) cells (row(h \<mapsto> PyFloat x)) = Inr d"
          by (auto simp del: fun_upd_apply split: sum.splits)
        then show ?thesis by (rule step)
      next
        case p: False
        with True v Cons.prems(2) have
          "map_cells hs (i + 1) cells (row(h \<mapsto> PyStr (cells ! i))) = Inr d"
          by simp
        then show ?thesis by (rule step)
      qed
    qed
  qed
qed

lemma club_not_normalized:
  "\<not> str_in (ascii ''Value'') (ascii ''Club'')" "\<not> str_in (ascii ''%'') (ascii ''Club'')"
  by (simp_all add: ascii_def)

lemma map_cells_club:
  "map_cells hs i cells row = Inr d \<Longrightarrow>
   (\<forall>v. row (ascii ''Club'') = Some v \<longrightarrow> (\<exists>s. v = PyStr s)) \<Longrightarrow>
   (\<forall>v. d (ascii ''Club'') = Some v \<longrightarrow> (\<exists>s. v = PyStr s))"
proof (induction hs arbitrary: i row)
  case Nil
  then show ?case by simp
next
  case (Cons h hs)
  let ?str = "\<lambda>m. \<forall>v. m (ascii ''Club'') = Some v \<longrightarrow> (\<exists>s. v = PyStr s)"
  have other: "?str (row(h \<mapsto> v))" if "h \<noteq> ascii ''Club''" for v
    using Cons.prems(2) that by simp
  have plain: "?str (row(h \<mapsto> PyStr s))" for s
    using Cons.prems(2) by simp
  show ?case
  proof (cases "i < length cells")
    case False
    with Cons.prems(1) have "map_cells hs (i + 1) cells row = Inr d" by simp
    from Cons.IH [OF this Cons.prems(2)] show ?thesis .
  next
    case True
    show ?thesis
    proof (cases "str_in (ascii ''Value'') h")
      case v: True
      then have ne: "h \<noteq> ascii ''Club''" using club_not_normalized by auto
      from True v Cons.prems(1) obtain n where
        "map_cells hs (i + 1) cells (row(h \<mapsto> PyInt n)) = Inr d"
        by (auto simp del: fun_upd_apply split: sum.splits)
      from Cons.IH [OF this other [OF ne]] show ?thesis .
    next
      case v: False
      show ?thesis
      proof (cases "str_in (ascii ''%'') h")
        case p: True
        then have ne: "h \<noteq> ascii ''Club''" using club_not_normalized by auto
        from True v p Cons.prems(1) obtain x where
          "map_cells hs (i + 1) cells (row(h \<mapsto> PyFloat x)) = Inr d"
          by (auto simp del: fun_upd_apply split: sum.splits)
        from Cons.IH [OF this other [OF ne]] show ?thesis .
      next
        case p: False
        with True v Cons.prems(1) have
          "map_cells hs (i + 1) cells (row(h \<mapsto> PyStr (cells ! i))) = Inr d"
          by simp
        from Cons.IH [OF this plain] show ?thesis .
      qed
    qed
  qed
qed

lemma has_club_str:
  assumes "has_club d" "\<forall>v. d (ascii ''Club'') = Some v \<longrightarrow> (\<exists>s. v = PyStr s)"
  shows "\<exists>s. s \<noteq> [] \<and> d (ascii ''Club'') = Some (PyStr s)"
  using assms by (auto simp: has_club_def split: option.splits)

lemma rows_loop_origin:
  "rows_loop hs rows acc = Inr out \<Longrightarrow> d \<in> set out \<Longrightarrow>
   d \<in> set acc \<or>
   (\<exists>row \<in> set rows. \<not> skipped_row row \<and> 2 \<le> length (cells_data row) \<and>
      map_cells hs 0 (cells_data row) (init_row hs Map.empty) = Inr d \<and> has_club d)"
proof (induction rows arbitrary: acc)
  case Nil
  then show ?case by simp
next
  case (Cons row rows)
  show ?case
  proof (cases "skipped_row row \<or> length (cells_data row) < 2")
    case True
    with Cons.prems(1) have "rows_loop hs rows acc = Inr out"
      by (auto split: if_splits)
    from Cons.IH [OF this Cons.prems(2)] show ?thesis by auto
  next
    case False
    with Cons.prems(1) obtain rd where
      rd: "map_cells hs 0 (cells_data row) (init_row hs Map.empty) = Inr rd"
      by (auto split: sum.splits)
    show ?thesis
    proof (cases "has_club rd")
      case True
      with Cons.prems(1) False rd have "rows_loop hs rows (acc @ [rd]) = Inr out" by simp
      from Cons.IH [OF this Cons.prems(2)] False rd True show ?thesis by auto
    next
      case no: False
      with Cons.prems(1) False rd have "rows_loop hs rows acc = Inr out" by simp
      from Cons.IH [OF this Cons.prems(2)] show ?thesis by auto
    qed
  qed
qed

lemma rows_loop_short_row:
  "length (cells_data row) < 2 \<Longrightarrow>
   rows_loop hs (rows1 @ row # rows2) acc = rows_loop hs (rows1 @ rows2) acc"
  by (induction rows1 arbitrary: acc) (simp_all split: sum.splits)

lemma row_data_shape:
  assumes "map_cells hs 0 cells (init_row hs Map.empty) = Inr d" "has_club d"
  shows "dom d = set hs \<and> (\<exists>s. s \<noteq> [] \<and> d (ascii ''Club'') = Some (PyStr s))"
proof -
  have "dom d = dom (init_row hs Map.empty)"
    using assms(1) by (rule map_cells_dom [rotated]) (simp add: dom_init_row)
  then have "dom d = set hs" by (simp add: dom_init_row)
  moreover have "\<forall>v. init_row hs Map.empty (ascii ''Club'') = Some v \<longrightarrow> (\<exists>s. v = PyStr s)"
    by (rule init_row_str) simp
  with assms(1) have "\<forall>v. d (ascii ''Club'') = Some v \<longrightarrow> (\<exists>s. v = PyStr s)"
    by (rule map_cells_club)
  with assms(2) have "\<exists>s. s \<noteq> [] \<and> d (ascii ''Club'') = Some (PyStr s)"
    by (rule has_club_str)
  ultimately show ?thesis by simp
qed

lemma extraction_rows_keys:
  assumes "extract_table W page = Some ex" "d \<in> set (data ex)"
  shows "dom d = set (headers ex)"
proof -
  from assms(1) obtain t ths where t: "page = Some t" "header_row t = Some ths"
    by (auto simp: extract_table_def split: option.splits)
  let ?hs = "final_header_list (header_labels W ths)"
  from assms(1) t have loop: "rows_loop ?hs (body_rows t) [] = Inr (data ex)"
    and hs: "headers ex = ?hs"
    by (auto simp: extract_table_def Let_def split: sum.splits)
  from rows_loop_origin [OF loop assms(2)] obtain r where
    "map_cells ?hs 0 (cells_data r) (init_row ?hs Map.empty) = Inr d" "has_club d"
    by auto
  from row_data_shape [OF this] hs show ?thesis by simp
qed

text \<open>
  Claim C5. A body row with fewer than two remaining cells never appears in the result:
  the extraction is the same with and without it. Every row \<open>d\<close> of a result comes from
  a body row that is not skipped and has at least two remaining cells; it has a value
  for exactly the labels of the final header list; and its value under \<open>Club\<close> is a
  non-empty string.
\<close>

theorem table_rows:
  "(length (cells_data row) < 2 \<longrightarrow>
      extract_table W (Some (t\<lparr>body_rows := rows1 @ row # rows2\<rparr>)) =
      extract_table W (Some (t\<lparr>body_rows := rows1 @ rows2\<rparr>))) \<and>
   (extract_table W (Some t) = Some ex \<and> d \<in> set (data ex) \<longrightarrow>
      dom d = set (headers ex) \<and>
      (\<exists>s. s \<noteq> [] \<and> d (ascii ''Club'') = Some (PyStr s)) \<and>
      (\<exists>r \<in> set (body_rows t). \<not> skipped_row r \<and> 2 \<le> length (cells_data r) \<and>
         map_cells (headers ex) 0 (cells_data r) (init_row (headers ex) Map.empty) = Inr d))"
proof (rule conjI; rule impI)
  assume "length (cells_data row) < 2"
  then show "extract_table W (Some (t\<lparr>body_rows := rows1 @ row # rows2\<rparr>)) =
             extract_table W (Some (t\<lparr>body_rows := rows1 @ rows2\<rparr>))"
    by (simp add: extract_table_def rows_loop_short_row Let_def split: option.splits)
next
  assume a: "extract_table W (Some t) = Some ex \<and> d \<in> set (data ex)"
  then obtain ths where ths: "header_row t = Some ths"
    by (auto simp: extract_table_def split: option.splits)
  let ?hs = "final_header_list (header_labels W ths)"
  from a ths have loop: "rows_loop ?hs (body_rows t) [] = Inr (data ex)" and hs: "headers ex = ?hs"
    by (auto simp: extract_table_def Let_def split: sum.splits)
  from a have "d \<in> set (data ex)" by simp
  from rows_loop_origin [OF loop this] obtain r where
    r: "r \<in> set (body_rows t)" "\<not> skipped_row r" "2 \<le> length (cells_data r)"
       "map_cells ?hs 0 (cells_data r) (init_row ?hs Map.empty) = Inr d" "has_club d"
    by auto
  from row_data_shape [OF r(4) r(5)] r hs
  show "dom d = set (headers ex) \<and>
      (\<exists>s. s \<noteq> [] \<and> d (ascii ''Club'') = Some (PyStr s)) \<and>
      (\<exists>r \<in> set (body_rows t). \<not> skipped_row r \<and> 2 \<le> length (cells_data r) \<and>
         map_cells (headers ex) 0 (cells_data r) (init_row (headers ex) Map.empty) = Inr d)"
    by auto
qed

theorem table_rows_witness:
  "length (cells_data \<lparr>row_class = [], row_cells = [\<lparr>cell_class = [], cell_text = ascii ''Total''\<rparr>]\<rparr>) < 2 \<and>
   extract_table (\<lambda>c. False)
     (Some \<lparr>header_row = Some [\<lparr>cell_class = [], cell_text = []\<rparr>,
                               \<lparr>cell_class = [], cell_text = ascii ''Club''\<rparr>,
                               \<lparr>cell_class = [], cell_text = ascii ''Market value''\<rparr>],
            body_rows =
              [\<lparr>row_class = [], row_cells = [\<lparr>cell_class = [], cell_text = ascii ''Total''\<rparr>]\<rparr>,
               \<lparr>row_class = [], row_cells =
                  [\<lparr>cell_class = [], cell_text = ascii ''1''\<rparr>,
                   \<lparr>cell_class = [], cell_text = ascii ''Bayern''\<rparr>,
                   \<lparr>cell_class = [], cell_text = euro # ascii ''944.70m''\<rparr>]\<rparr>]\<rparr>) =
   Some \<lparr>headers = [ascii ''Rank'', ascii ''Club'', ascii ''Value''],
         data = [[ascii ''Rank'' \<mapsto> PyStr (ascii ''1''),
                  ascii ''Club'' \<mapsto> PyStr (ascii ''Bayern''),
                  ascii ''Value'' \<mapsto> PyInt 944700000]]\<rparr> \<and>
   extract_table (\<lambda>c. False)
     (Some \<lparr>header_row = Some [\<lparr>cell_class = [], cell_text = []\<rparr>,
                               \<lparr>cell_class = [], cell_text = ascii ''Club''\<rparr>,
                               \<lparr>cell_class = [], cell_text = ascii ''Market value''\<rparr>],
            body_rows =
              [\<lparr>row_class = [], row_cells =
                  [\<lparr>cell_class = [], cell_text = ascii ''1''\<rparr>,
                   \<lparr>cell_class = [], cell_text = ascii ''Bayern''\<rparr>,
                   \<lparr>cell_class = [], cell_text = euro # ascii ''944.70m''\<rparr>]\<rparr>]\<rparr>) =
   Some \<lparr>headers = [ascii ''Rank'', ascii ''Club'', ascii ''Value''],
         data = [[ascii ''Rank'' \<mapsto> PyStr (ascii ''1''),
                  ascii ''Club'' \<mapsto> PyStr (ascii ''Bayern''),
                  ascii ''Value'' \<mapsto> PyInt 944700000]]\<rparr> \<and>
   dom [ascii ''Rank'' \<mapsto> PyStr (ascii ''1''), ascii ''Club'' \<mapsto> PyStr (ascii ''Bayern''),
        ascii ''Value'' \<mapsto> PyInt 944700000] =
     set [ascii ''Rank'', ascii ''Club'', ascii ''Value''] \<and>
   (\<exists>s. s \<noteq> [] \<and>
      [ascii ''Rank'' \<mapsto> PyStr (ascii ''1''), ascii ''Club'' \<mapsto> PyStr (ascii ''Bayern''),
       ascii ''Value'' \<mapsto> PyInt 944700000] (ascii ''Club'') = Some (PyStr s))"
  (is "?short \<and> ?full = ?ex \<and> ?without = ?ex \<and> ?dom \<and> ?club")
proof -
  let ?short_row = "\<lparr>row_class = [], row_cells = [\<lparr>cell_class = [], cell_text = ascii ''Total''\<rparr>]\<rparr>"
  let ?full_row = "\<lparr>row_class = [], row_cells =
                  [\<lparr>cell_class = [], cell_text = ascii ''1''\<rparr>,
                   \<lparr>cell_class = [], cell_text = ascii ''Bayern''\<rparr>,
                   \<lparr>cell_class = [], cell_text = euro # ascii ''944.70m''\<rparr>]\<rparr>"
  let ?t = "\<lparr>header_row = Some [\<lparr>cell_class = [], cell_text = []\<rparr>,
                               \<lparr>cell_class = [], cell_text = ascii ''Club''\<rparr>,
                               \<lparr>cell_class = [], cell_text = ascii ''Market value''\<rparr>],
            body_rows = [?full_row]\<rparr>"
  let ?d = "[ascii ''Rank'' \<mapsto> PyStr (ascii ''1''), ascii ''Club'' \<mapsto> PyStr (ascii ''Bayern''),
        ascii ''Value'' \<mapsto> PyInt 944700000]"
  have c: "convert_currency_to_number [8364, 57, 52, 52, 46, 55, 48, 109] = Inr 944700000"
    using currency_944_70m by (simp add: ascii_def euro_def)
  have short: ?short
    by (simp add: cells_data_def hidden_cell_def)
  have without: "?without = ?ex"
    by (simp add: extract_table_def final_header_list_def header_labels_def hidden_header_def
          canonical_header_def lower_def value_label_def skipped_row_def cells_data_def
          hidden_cell_def has_club_def str_defs c)
  note T = table_rows [where row = ?short_row and W = "\<lambda>c. False" and t = ?t
      and ?rows1.0 = "[]" and ?rows2.0 = "[?full_row]" and ex = "the ?ex" and d = ?d]
  from T short have "?full = ?without" by simp
  moreover from T without have "?dom \<and> ?club" by simp
  ultimately show ?thesis using short without by simp
qed

section \<open>Date Sequencer: the fixtures\<close>

text \<open>
  Claim C6. From 2024-10-01 to 2024-11-01 the sequence is 2024-10-01, 2024-10-15,
  2024-11-01. From 2024-10-07 to 2024-10-20 the start snaps to 2024-10-01 and the
  sequence is 2024-10-01, 2024-10-15: the next date, 2024-11-01, is after the end.
\<close>

theorem date_range_fixtures:
  "generate_date_range (ascii ''2024-10-01'') (ascii ''2024-11-01'') =
     Inr [ascii ''2024-10-01'', ascii ''2024-10-15'', ascii ''2024-11-01''] \<and>
   snap_start \<lparr>year = 2024, month = 10, day = 7\<rparr> = \<lparr>year = 2024, month = 10, day = 1\<rparr> \<and>
   generate_date_range (ascii ''2024-10-07'') (ascii ''2024-10-20'') =
     Inr [ascii ''2024-10-01'', ascii ''2024-10-15''] \<and>
   datetime 2024 (10 + 1) 1 = Inr \<lparr>year = 2024, month = 11, day = 1\<rparr> \<and>
   \<not> date_le \<lparr>year = 2024, month = 11, day = 1\<rparr> \<lparr>year = 2024, month = 10, day = 20\<rparr>"
  by (simp add: generate_date_range_def date_loop.simps str_defs date_defs)

section \<open>Date Sequencer: every range\<close>

lemma date_le_refl: "date_le a a"
  by (simp add: date_le_def)

lemma date_le_trans: "date_le a b \<Longrightarrow> date_le b c \<Longrightarrow> date_le a c"
  by (auto simp: date_le_def)

lemma date_less_le_trans: "date_less a b \<Longrightarrow> date_le b c \<Longrightarrow> date_less a c"
  by (auto simp: date_less_def date_le_def)

lemma date_less_imp_le: "date_less a b \<Longrightarrow> date_le a b"
  by (auto simp: date_less_def date_le_def)

lemma date_less_irrefl: "\<not> date_less a a"
  by (simp add: date_less_def)

lemma sorted_wrt_date_less_distinct: "sorted_wrt date_less ds \<Longrightarrow> distinct ds"
  by (induction ds) (auto simp: date_less_irrefl)

lemma next_date_mid:
  "valid_date c \<Longrightarrow> day c = 1 \<Longrightarrow>
   valid_date (c\<lparr>day := 15\<rparr>) \<and> date_less c (c\<lparr>day := 15\<rparr>)"
  by (simp add: valid_date_def days_in_month_def date_less_def)

lemma next_date_year:
  "valid_date c \<Longrightarrow> year c < 9999 \<Longrightarrow>
   datetime (year c + 1) 1 1 = Inr \<lparr>year = year c + 1, month = 1, day = 1\<rparr> \<and>
   valid_date \<lparr>year = year c + 1, month = 1, day = 1\<rparr> \<and>
   date_less c \<lparr>year = year c + 1, month = 1, day = 1\<rparr>"
  by (simp add: datetime_def valid_date_def days_in_month_def date_less_def Let_def)

lemma next_date_month:
  "valid_date c \<Longrightarrow> month c \<noteq> 12 \<Longrightarrow>
   datetime (year c) (month c + 1) 1 = Inr \<lparr>year = year c, month = month c + 1, day = 1\<rparr> \<and>
   valid_date \<lparr>year = year c, month = month c + 1, day = 1\<rparr> \<and>
   date_less c \<lparr>year = year c, month = month c + 1, day = 1\<rparr>"
  by (simp add: datetime_def valid_date_def days_in_month_def date_less_def Let_def)

lemma before_last_day:
  "date_le c e \<Longrightarrow> date_less e \<lparr>year = 9999, month = 12, day = 15\<rparr> \<Longrightarrow>
   day c = 15 \<Longrightarrow> month c = 12 \<Longrightarrow> year c < 9999"
  by (auto simp: date_le_def date_less_def)

lemma date_loop_dates:
  assumes "valid_date c" "day c = 1 \<or> day c = 15"
    and "date_less e \<lparr>year = 9999, month = 12, day = 15\<rparr>"
  shows "\<exists>ds. date_loop c e acc = Inr (acc @ map strftime ds) \<and>
           (\<forall>d \<in> set ds. (day d = 1 \<or> day d = 15) \<and> valid_date d \<and> date_le c d \<and> date_le d e) \<and>
           sorted_wrt date_less ds"
  using assms
proof (induction c e acc rule: date_loop.induct)
  case (1 c e acc)
  let ?P = "\<lambda>c acc ds. date_loop c e acc = Inr (acc @ map strftime ds) \<and>
           (\<forall>d \<in> set ds. (day d = 1 \<or> day d = 15) \<and> valid_date d \<and> date_le c d \<and> date_le d e) \<and>
           sorted_wrt date_less ds"
  note valid = \<open>valid_date c\<close> and bound = \<open>date_less e \<lparr>year = 9999, month = 12, day = 15\<rparr>\<close>
  show ?case
  proof (cases "date_le c e")
    case False
    then have "?P c acc []"
      by (subst date_loop.simps) simp
    then show ?thesis by blast
  next
    case le: True
    have step: "\<exists>ds. ?P c acc ds"
      if n: "date_less c n"
        and run: "date_loop c e acc = date_loop n e (acc @ [strftime c])"
        and ih: "\<exists>ds. ?P n (acc @ [strftime c]) ds" for n
    proof -
      from ih obtain ds where
        loop: "date_loop n e (acc @ [strftime c]) = Inr ((acc @ [strftime c]) @ map strftime ds)"
        and each: "\<forall>d \<in> set ds. (day d = 1 \<or> day d = 15) \<and> valid_date d \<and> date_le n d \<and> date_le d e"
        and sorted: "sorted_wrt date_less ds"
        by blast
      have less: "\<forall>d \<in> set ds. date_less c d"
        using each n by (blast intro: date_less_le_trans)
      then have "\<forall>d \<in> set ds. date_le c d"
        by (blast intro: date_less_imp_le)
      with less each sorted loop run le valid \<open>day c = 1 \<or> day c = 15\<close>
      have "?P c acc (c # ds)"
        by (simp add: date_le_refl)
      then show ?thesis by blast
    qed
    show ?thesis
    proof (cases "day c = 1")
      case True
      from next_date_mid [OF valid True]
      have v: "valid_date (c\<lparr>day := 15\<rparr>)" and l: "date_less c (c\<lparr>day := 15\<rparr>)"
        by simp_all
      have run: "date_loop c e acc = date_loop (c\<lparr>day := 15\<rparr>) e (acc @ [strftime c])"
        using le True by (subst date_loop.simps) simp
      have "\<exists>ds. ?P (c\<lparr>day := 15\<rparr>) (acc @ [strftime c]) ds"
        using "1.IH"(1) [OF le True v _ bound] by simp
      with l run show ?thesis by (rule step)
    next
      case False
      with \<open>day c = 1 \<or> day c = 15\<close> have d15: "day c = 15" by simp
      show ?thesis
      proof (cases "month c = 12")
        case True
        let ?n = "\<lparr>year = year c + 1, month = 1, day = 1\<rparr>"
        from before_last_day [OF le bound d15 True] have "year c < 9999" .
        from next_date_year [OF valid this]
        have dt: "datetime (year c + 1) 1 1 = Inr ?n" and v: "valid_date ?n"
          and l: "date_less c ?n"
          by simp_all
        have run: "date_loop c e acc = date_loop ?n e (acc @ [strftime c])"
          using le False True dt by (subst date_loop.simps) simp
        have "\<exists>ds. ?P ?n (acc @ [strftime c]) ds"
          using "1.IH"(2) [OF le False True dt v _ bound] by simp
        with l run show ?thesis by (rule step)
      next
        case m: False
        let ?n = "\<lparr>year = year c, month = month c + 1, day = 1\<rparr>"
        from next_date_month [OF valid m]
        have dt: "datetime (year c) (month c + 1) 1 = Inr ?n" and v: "valid_date ?n"
          and l: "date_less c ?n"
          by simp_all
        have run: "date_loop c e acc = date_loop ?n e (acc @ [strftime c])"
          using le False m dt by (subst date_loop.simps) simp
        have "\<exists>ds. ?P ?n (acc @ [strftime c]) ds"
          using "1.IH"(3) [OF le False m dt v _ bound] by simp
        with l run show ?thesis by (rule step)
      qed
    qed
  qed
qed

lemma strptime_valid: "strptime s = Inr a \<Longrightarrow> valid_date a"
  by (auto simp: strptime_def datetime_def Let_def
        split: option.splits list.splits if_splits prod.splits)

lemma snap_start_valid:
  "valid_date a \<Longrightarrow> valid_date (snap_start a) \<and> (day (snap_start a) = 1 \<or> day (snap_start a) = 15)"
  by (simp add: snap_start_def valid_date_def days_in_month_def)

lemma generate_date_range_before_last:
  assumes "strptime start_date = Inr a" "strptime end_date = Inr b"
    and "date_less b \<lparr>year = 9999, month = 12, day = 15\<rparr>"
  shows "\<exists>ds. generate_date_range start_date end_date = Inr (map strftime ds) \<and>
           (\<forall>d \<in> set ds. (day d = 1 \<or> day d = 15) \<and> valid_date d \<and>
                          date_le (snap_start a) d \<and> date_le d b) \<and>
           sorted_wrt date_less ds \<and> distinct ds"
proof -
  from assms(1) have "valid_date a" by (rule strptime_valid)
  then have "valid_date (snap_start a)" "day (snap_start a) = 1 \<or> day (snap_start a) = 15"
    using snap_start_valid by simp_all
  from date_loop_dates [OF this assms(3), of "[]"] assms(1,2) show ?thesis
    by (auto simp: generate_date_range_def dest: sorted_wrt_date_less_distinct)
qed

text \<open>
  Claim C7. The sequence should be returned for every pair of well-formed dates, with
  days 1 and 15 only, strictly increasing and without repetition. It is, whenever the
  end date is before 9999-12-15 (\<open>generate_date_range_before_last\<close>). With the end
  date on or after 9999-12-15 the loop, after the date 9999-12-15, builds
  \<open>datetime(10000, 1, 1)\<close>, which raises \<open>ValueError\<close>: from 9999-12-01 to 9999-12-31
  no list is returned.
\<close>

theorem date_range_last_year:
  "generate_date_range (ascii ''9999-12-01'') (ascii ''9999-12-31'') = Inl ValueError"
  by (simp add: generate_date_range_def date_loop.simps str_defs date_defs)

section \<open>CSV sink: header line and data rows\<close>

text \<open>
  Claim C9. When the \<open>data\<close> argument is \<open>None\<close>, or a dictionary without the key
  \<open>"headers"\<close> or without the key \<open>"data"\<close>, \<open>save_to_csv\<close> returns \<open>False\<close> and the file
  system is the one it was given.
\<close>

theorem save_to_csv_no_data:
  "save_to_csv None filename date fs = (False, fs) \<and>
   save_to_csv (Some \<lparr>headers_key = None, data_key = dk\<rparr>) filename date fs = (False, fs) \<and>
   save_to_csv (Some \<lparr>headers_key = hk, data_key = None\<rparr>) filename date fs = (False, fs)"
  by (simp add: save_to_csv_def split: option.splits)






section \<open>The date argument of the scraper\<close>




end
